theory Spec2Isabelle
  imports Main "HOL-Library.Multiset" "HOL-Library.Char_ord" "HOL-Library.List_Lexorder"
begin

section \<open>Employee directory: the resolvers of server/index.js\<close>

text \<open>
  The server keeps its employees in one module-level array and answers GraphQL
  operations with the resolvers of \<^verbatim>\<open>src/server/index.js\<close>. The array is
  passed explicitly here: a resolver that mutates it returns the new array next to
  its result, and a resolver that throws returns the array it was given.

  A JavaScript string is modelled as the \<^typ>\<open>string\<close> of its code units, for the
  strings whose code units are below 256 (Latin-1), compared with \<open><\<close> position by
  position on the codes, as the \<open><\<close> of JavaScript does on code units.
  \<open>toLowerCase\<close> maps the capital letters of this range to their small letters.
  The GraphQL type \<open>Int\<close> is
  \<^typ>\<open>int\<close>: the products and sums of the pagination are exact below \<open>2^53\<close>, and
  beyond that the offset is past the end of any array before and after rounding.
  A nullable filter, filter field or sort is an \<^typ>\<open>'a option\<close> whose \<open>None\<close> stands
  for a value that is absent or null, which the source does not tell apart. For
  \<open>page\<close> and \<open>pageSize\<close>, \<open>None\<close> is the absent argument, which takes the default.
\<close>

subsection \<open>Data\<close>

text \<open>The role of a user is the string the token carries: \<open>''ADMIN''\<close> or \<open>''EMPLOYEE''\<close>.\<close>

record public_user =
  id_usr :: string
  username :: string
  role :: string

record user = public_user +
  password :: string

text \<open>The fields that \<open>Employee\<close> and \<open>EmployeeInput\<close> have in common come first.\<close>

record employee_fields =
  name :: string
  age :: int
  className :: string
  subjects :: "string list"
  attendance :: int

text \<open>\<open>flagged = None\<close> is the JavaScript \<open>null\<close>, which an update can store.\<close>

record employee = employee_fields +
  id_emp :: string
  flagged :: "bool option"
  createdAt :: string

text \<open>
  \<open>flagged\<close> is the one nullable field of \<open>EmployeeInput\<close>: the input object has no
  such key, or has it with \<open>null\<close>, or with a boolean.
\<close>

datatype 'a input_field = Omitted | Null | Given 'a

record employee_input = employee_fields +
  flagged_in :: "bool input_field"

record employee_filter =
  nameContains :: "string option"
  className_flt :: "string option"
  minAttendance :: "int option"

datatype employee_sort_field = NAME | AGE | ATTENDANCE | CREATED_AT

datatype sort_order = ASC | DESC

record employee_sort =
  field :: employee_sort_field
  order :: sort_order

record employee_page =
  items :: "employee list"
  totalCount :: int
  page :: int
  pageSize :: int

record auth_payload =
  token :: string
  user_out :: public_user

record request_context =
  user :: "public_user option"

text \<open>The four messages thrown by the resolvers.\<close>

datatype error =
    Not_authenticated   \<comment> \<open>\<open>'Not authenticated'\<close>\<close>
  | Not_authorized      \<comment> \<open>\<open>'Not authorized'\<close>\<close>
  | Invalid_credentials \<comment> \<open>\<open>'Invalid credentials'\<close>\<close>
  | Employee_not_found  \<comment> \<open>\<open>'Employee not found'\<close>\<close>

subsection \<open>In-memory data\<close>

definition users :: "user list" where
  "users =
    [\<lparr>id_usr = ''1'', username = ''admin'', role = ''ADMIN'', password = ''admin123''\<rparr>,
     \<lparr>id_usr = ''2'', username = ''john'', role = ''EMPLOYEE'', password = ''john123''\<rparr>]"

definition alice :: employee where
  "alice =
    \<lparr>name = ''Alice Johnson'', age = 29, className = ''Class A'',
     subjects = [''Math'', ''Science''], attendance = 96,
     id_emp = ''e1'', flagged = Some False, createdAt = ''2024-01-12T00:00:00.000Z''\<rparr>"

definition bob :: employee where
  "bob =
    \<lparr>name = ''Bob Singh'', age = 34, className = ''Class B'',
     subjects = [''English'', ''History''], attendance = 89,
     id_emp = ''e2'', flagged = Some True, createdAt = ''2024-03-01T00:00:00.000Z''\<rparr>"

definition clara :: employee where
  "clara =
    \<lparr>name = ''Clara Lee'', age = 26, className = ''Class A'',
     subjects = [''Biology'', ''Chemistry''], attendance = 92,
     id_emp = ''e3'', flagged = Some False, createdAt = ''2024-05-21T00:00:00.000Z''\<rparr>"

text \<open>The initial value of the array \<open>employees\<close>.\<close>

definition employees_init :: "employee list" where
  "employees_init = [alice, bob, clara]"

subsection \<open>String operations of the runtime\<close>

text \<open>
  \<open>toLowerCase\<close>: the capital letters are \<open>A\<close> to \<open>Z\<close> (65 to 90) and, in Latin-1,
  192 to 214 and 216 to 222; the small letter is 32 further. Every other code unit
  below 256 stays (215 is the multiplication sign, 223 the sharp s).
\<close>

definition lower_char :: "char \<Rightarrow> char" where
  "lower_char c =
    (let n = (of_char c :: nat) in
     if (65 \<le> n \<and> n \<le> 90) \<or> (192 \<le> n \<and> n \<le> 214) \<or> (216 \<le> n \<and> n \<le> 222)
     then char_of (n + 32)
     else c)"

definition toLowerCase :: "string \<Rightarrow> string" where
  "toLowerCase s = map lower_char s"

fun startsWith :: "string \<Rightarrow> string \<Rightarrow> bool" where
  "startsWith s [] = True"
| "startsWith [] (q # qs) = False"
| "startsWith (c # cs) (q # qs) = (c = q \<and> startsWith cs qs)"

text \<open>\<open>s.includes(q)\<close>: \<open>q\<close> occurs in \<open>s\<close> at some position.\<close>

fun includes_str :: "string \<Rightarrow> string \<Rightarrow> bool" where
  "includes_str [] q = (q = [])"
| "includes_str (c # cs) q = (startsWith (c # cs) q \<or> includes_str cs q)"

text \<open>The decimal numeral of a template literal \<open>`${n}`\<close>, for a natural number.\<close>

definition digit_char :: "nat \<Rightarrow> char" where
  "digit_char d = ''0123456789'' ! d"

fun decimal :: "nat \<Rightarrow> string" where
  "decimal n = (if n < 10 then [digit_char n] else decimal (n div 10) @ [digit_char (n mod 10)])"

declare decimal.simps [simp del]

text \<open>
  \<open>xs.slice(start, end)\<close>: a negative bound counts from the end, and both bounds are
  clamped to the array.
\<close>

definition slice :: "'a list \<Rightarrow> int \<Rightarrow> int \<Rightarrow> 'a list" where
  "slice xs start end =
    (let len = int (length xs);
         k = (if start < 0 then max (len + start) 0 else min start len);
         final = (if end < 0 then max (len + end) 0 else min end len)
     in take (nat (final - k)) (drop (nat k) xs))"

text \<open>
  \<open>xs.sort(cmp)\<close> is stable: an element goes in front of the first element of the
  sorted rest that it does not compare greater than.
\<close>

fun insort_cmp :: "('a \<Rightarrow> 'a \<Rightarrow> int) \<Rightarrow> 'a \<Rightarrow> 'a list \<Rightarrow> 'a list" where
  "insort_cmp cmp x [] = [x]"
| "insort_cmp cmp x (y # ys) = (if cmp x y \<le> 0 then x # y # ys else y # insort_cmp cmp x ys)"

fun sort_cmp :: "('a \<Rightarrow> 'a \<Rightarrow> int) \<Rightarrow> 'a list \<Rightarrow> 'a list" where
  "sort_cmp cmp [] = []"
| "sort_cmp cmp (x # xs) = insort_cmp cmp x (sort_cmp cmp xs)"

subsection \<open>Helpers\<close>

text \<open>
  A helper that throws returns the error, and \<open>None\<close> when it returns normally.
  \<open>requireRole\<close> reads the role only after \<open>requireAuth\<close> has found a user.
\<close>

definition requireAuth :: "request_context \<Rightarrow> error option" where
  "requireAuth ctx = (case user ctx of None \<Rightarrow> Some Not_authenticated | Some u \<Rightarrow> None)"

definition requireRole :: "request_context \<Rightarrow> string list \<Rightarrow> error option" where
  "requireRole ctx roles =
    (case requireAuth ctx of
       Some e \<Rightarrow> Some e
     | None \<Rightarrow>
        (case user ctx of
           None \<Rightarrow> Some Not_authenticated
         | Some u \<Rightarrow> if role u \<notin> set roles then Some Not_authorized else None))"

text \<open>The last three lines of the comparator, on the two keys \<open>av\<close> and \<open>bv\<close>.\<close>

definition compare_keys :: "int \<Rightarrow> 'k::linorder \<Rightarrow> 'k \<Rightarrow> int" where
  "compare_keys dir av bv = (if av < bv then -1 * dir else if av > bv then 1 * dir else 0)"

definition comparator :: "employee_sort \<Rightarrow> employee \<Rightarrow> employee \<Rightarrow> int" where
  "comparator srt a b =
    (let dir = (if order srt = DESC then -1 else 1) in
     case field srt of
       NAME \<Rightarrow> compare_keys dir (toLowerCase (name a)) (toLowerCase (name b))
     | AGE \<Rightarrow> compare_keys dir (age a) (age b)
     | ATTENDANCE \<Rightarrow> compare_keys dir (attendance a) (attendance b)
     | CREATED_AT \<Rightarrow> compare_keys dir (createdAt a) (createdAt b))"

definition sortEmployees :: "employee list \<Rightarrow> employee_sort option \<Rightarrow> employee list" where
  "sortEmployees list srt =
    (case srt of None \<Rightarrow> list | Some s \<Rightarrow> sort_cmp (comparator s) list)"

text \<open>
  The two string predicates are guarded by the truth value of the string, which is
  false for the empty string; the threshold is guarded by \<open>typeof ... === 'number'\<close>.
\<close>

definition filterEmployees :: "employee list \<Rightarrow> employee_filter option \<Rightarrow> employee list" where
  "filterEmployees list flt =
    (case flt of
       None \<Rightarrow> list
     | Some f \<Rightarrow>
        (let result = list;
             result = (case nameContains f of
                         Some q \<Rightarrow>
                           if q \<noteq> [] then
                             filter (\<lambda>e. includes_str (toLowerCase (name e)) (toLowerCase q)) result
                           else result
                       | None \<Rightarrow> result);
             result = (case className_flt f of
                         Some c \<Rightarrow>
                           if c \<noteq> [] then filter (\<lambda>e. className e = c) result else result
                       | None \<Rightarrow> result);
             result = (case minAttendance f of
                         Some m \<Rightarrow> filter (\<lambda>e. attendance e \<ge> m) result
                       | None \<Rightarrow> result)
         in result))"

subsection \<open>Resolvers\<close>

text \<open>\<open>page\<close> and \<open>pageSize\<close> default to 1 and 10 when the argument is absent.\<close>

definition Query_employees ::
  "employee list \<Rightarrow> employee_filter option \<Rightarrow> int option \<Rightarrow> int option \<Rightarrow>
   employee_sort option \<Rightarrow> employee_page" where
  "Query_employees employees flt page_arg pageSize_arg srt =
    (let pg = (case page_arg of None \<Rightarrow> 1 | Some p \<Rightarrow> p);
         sz = (case pageSize_arg of None \<Rightarrow> 10 | Some p \<Rightarrow> p);
         list = filterEmployees employees flt;
         list = sortEmployees list srt;
         total = int (length list);
         start = (pg - 1) * sz;
         end = start + sz
     in \<lparr>items = slice list start end, totalCount = total, page = pg, pageSize = sz\<rparr>)"

definition Query_employee :: "employee list \<Rightarrow> string \<Rightarrow> employee option" where
  "Query_employee employees i = find (\<lambda>e. id_emp e = i) employees"

text \<open>
  \<open>jwt.sign\<close> belongs to a library: the token is what a signing function \<open>sign\<close>
  makes of the payload \<open>{id, username, role}\<close>.
\<close>

definition login :: "(public_user \<Rightarrow> string) \<Rightarrow> string \<Rightarrow> string \<Rightarrow> error + auth_payload" where
  "login sign uname pw =
    (case find (\<lambda>u. username u = uname \<and> password u = pw) users of
       None \<Rightarrow> Inl Invalid_credentials
     | Some u \<Rightarrow>
        Inr \<lparr>token = sign \<lparr>id_usr = id_usr u, username = username u, role = role u\<rparr>,
             user_out = \<lparr>id_usr = id_usr u, username = username u, role = role u\<rparr>\<rparr>)"

text \<open>\<open>now\<close> is the ISO string of the clock at the call.\<close>

definition addEmployee ::
  "employee list \<Rightarrow> string \<Rightarrow> employee_input \<Rightarrow> request_context \<Rightarrow> (error + employee) \<times> employee list" where
  "addEmployee employees now input ctx =
    (case requireRole ctx [''ADMIN''] of
       Some e \<Rightarrow> (Inl e, employees)
     | None \<Rightarrow>
        (let i = ''e'' @ decimal (length employees + 1);
             employee = \<lparr>name = name input, age = age input, className = className input,
                         subjects = subjects input, attendance = attendance input,
                         id_emp = i,
                         flagged = (case flagged_in input of Given b \<Rightarrow> Some b | _ \<Rightarrow> Some False),
                         createdAt = now\<rparr>
         in (Inr employee, employees @ [employee])))"

text \<open>\<open>findIndex\<close>: the first index whose element satisfies the predicate.\<close>

fun findIndex :: "('a \<Rightarrow> bool) \<Rightarrow> 'a list \<Rightarrow> nat option" where
  "findIndex P [] = None"
| "findIndex P (x # xs) =
    (if P x then Some 0 else (case findIndex P xs of None \<Rightarrow> None | Some i \<Rightarrow> Some (Suc i)))"

text \<open>
  The spread \<open>{...employees[idx], ...input}\<close>: every key of the input replaces the
  key of the record; \<open>flagged\<close> is a key of the input unless it was omitted.
\<close>

definition spread :: "employee \<Rightarrow> employee_input \<Rightarrow> employee" where
  "spread e input =
    e\<lparr>name := name input, age := age input, className := className input,
      subjects := subjects input, attendance := attendance input,
      flagged := (case flagged_in input of
                    Omitted \<Rightarrow> flagged e | Null \<Rightarrow> None | Given b \<Rightarrow> Some b)\<rparr>"

definition updateEmployee ::
  "employee list \<Rightarrow> string \<Rightarrow> employee_input \<Rightarrow> request_context \<Rightarrow> (error + employee) \<times> employee list" where
  "updateEmployee employees i input ctx =
    (case requireRole ctx [''ADMIN''] of
       Some e \<Rightarrow> (Inl e, employees)
     | None \<Rightarrow>
        (case findIndex (\<lambda>e. id_emp e = i) employees of
           None \<Rightarrow> (Inl Employee_not_found, employees)
         | Some idx \<Rightarrow>
            (let employees' = employees[idx := spread (employees ! idx) input]
             in (Inr (employees' ! idx), employees'))))"

subsection \<open>The order the specification describes\<close>









subsection \<open>Sequences of mutations\<close>

text \<open>
  The array over the lifetime of the process: it starts as \<open>employees_init\<close> and
  changes only through the two mutations, whatever their arguments and outcome.
\<close>

datatype mutation =
    AddEmployee string employee_input request_context
  | UpdateEmployee string employee_input request_context

fun apply_mutation :: "employee list \<Rightarrow> mutation \<Rightarrow> employee list" where
  "apply_mutation employees (AddEmployee now input ctx) =
     snd (addEmployee employees now input ctx)"
| "apply_mutation employees (UpdateEmployee i input ctx) =
     snd (updateEmployee employees i input ctx)"

definition run_mutations :: "mutation list \<Rightarrow> employee list" where
  "run_mutations ms = foldl apply_mutation employees_init ms"

text \<open>The invariant of the array: the record at index \<open>k\<close> has the id \<open>e(k+1)\<close>.\<close>

definition ids_numbered :: "employee list \<Rightarrow> bool" where
  "ids_numbered employees =
    (map id_emp employees = map (\<lambda>k. ''e'' @ decimal (k + 1)) [0..<length employees])"

text \<open>The number a decimal numeral stands for, to show that \<open>decimal\<close> is injective.\<close>

definition decimal_value :: "string \<Rightarrow> nat" where
  "decimal_value s = foldl (\<lambda>a c. 10 * a + (of_char c - 48)) 0 s"

subsection \<open>Example requests\<close>

text \<open>
  The contexts of a request without a token, with the token of \<open>admin\<close> and with the
  token of \<open>john\<close>.
\<close>

definition anonymous_context :: request_context where
  "anonymous_context = \<lparr>user = None\<rparr>"

definition admin_context :: request_context where
  "admin_context = \<lparr>user = Some \<lparr>id_usr = ''1'', username = ''admin'', role = ''ADMIN''\<rparr>\<rparr>"

definition john_context :: request_context where
  "john_context = \<lparr>user = Some \<lparr>id_usr = ''2'', username = ''john'', role = ''EMPLOYEE''\<rparr>\<rparr>"






text \<open>An input for the two mutations.\<close>

definition dan_input :: employee_input where
  "dan_input =
    \<lparr>name = ''Dan Wu'', age = 41, className = ''Class C'', subjects = [''Art''],
     attendance = 77, flagged_in = Omitted\<rparr>"

section \<open>Properties of the runtime operations\<close>

lemma startsWith_iff: "startsWith s q \<longleftrightarrow> (\<exists>ss. s = q @ ss)"
  by (induction s q rule: startsWith.induct) auto

text \<open>\<open>includes_str\<close> is substring containment.\<close>

lemma includes_str_iff: "includes_str s q \<longleftrightarrow> (\<exists>ps ss. s = ps @ q @ ss)"
proof (induction s)
  case Nil
  then show ?case by auto
next
  case (Cons c cs)
  show ?case
  proof
    assume "includes_str (c # cs) q"
    then consider "startsWith (c # cs) q" | "includes_str cs q" by auto
    then show "\<exists>ps ss. c # cs = ps @ q @ ss"
    proof cases
      case 1
      then obtain ss where "c # cs = q @ ss" by (auto simp: startsWith_iff)
      then have "c # cs = [] @ q @ ss" by simp
      then show ?thesis by blast
    next
      case 2
      then obtain ps ss where "cs = ps @ q @ ss" using Cons.IH by auto
      then have "c # cs = (c # ps) @ q @ ss" by simp
      then show ?thesis by blast
    qed
  next
    assume "\<exists>ps ss. c # cs = ps @ q @ ss"
    then obtain ps ss where eq: "c # cs = ps @ q @ ss" by blast
    show "includes_str (c # cs) q"
    proof (cases ps)
      case Nil
      with eq have "startsWith (c # cs) q" by (auto simp: startsWith_iff)
      then show ?thesis by simp
    next
      case (Cons p ps')
      with eq have "cs = ps' @ q @ ss" by simp
      then have "includes_str cs q" using Cons.IH by blast
      then show ?thesis by simp
    qed
  qed
qed


lemma mset_insort_cmp: "mset (insort_cmp cmp x ys) = add_mset x (mset ys)"
  by (induction ys) auto

lemma mset_sort_cmp: "mset (sort_cmp cmp xs) = mset xs"
  by (induction xs) (auto simp: mset_insort_cmp)


lemma length_sort_cmp: "length (sort_cmp cmp xs) = length xs"
  using mset_sort_cmp [of cmp xs] by (metis size_mset)





lemma slice_take_drop:
  assumes "0 \<le> start" and "start \<le> end"
  shows "slice xs start end = take (nat (end - start)) (drop (nat start) xs)"
proof (cases "start \<le> int (length xs)")
  case True
  with assms show ?thesis
    by (auto simp: slice_def Let_def min_def)
next
  case False
  with assms show ?thesis
    by (auto simp: slice_def Let_def min_def)
qed

lemma find_SomeD: "find P xs = Some x \<Longrightarrow> x \<in> set xs \<and> P x"
  by (induction xs) (auto split: if_splits)

lemma findIndex_None: "findIndex P xs = None \<longleftrightarrow> (\<forall>x \<in> set xs. \<not> P x)"
  by (induction xs) (auto split: option.splits)

lemma findIndex_Some:
  "findIndex P xs = Some i \<Longrightarrow> i < length xs \<and> P (xs ! i) \<and> (\<forall>j < i. \<not> P (xs ! j))"
proof (induction xs arbitrary: i)
  case Nil
  then show ?case by simp
next
  case (Cons x xs)
  show ?case
  proof (cases "P x")
    case True
    with Cons.prems show ?thesis by simp
  next
    case False
    with Cons.prems obtain k where k: "findIndex P xs = Some k" "i = Suc k"
      by (auto split: option.splits)
    from Cons.IH [OF k(1)] False k(2) show ?thesis
      by (auto simp: nth_Cons split: nat.splits)
  qed
qed

lemma of_char_digit_char: "d < 10 \<Longrightarrow> of_char (digit_char d) = 48 + d"
proof -
  have "\<forall>d < 10. (of_char (digit_char d) :: nat) = 48 + d"
    unfolding digit_char_def by code_simp
  then show "d < 10 \<Longrightarrow> of_char (digit_char d) = 48 + d" by simp
qed

lemma decimal_value_decimal: "decimal_value (decimal n) = n"
proof (induction n rule: decimal.induct)
  case (1 n)
  show ?case
  proof (cases "n < 10")
    case True
    then show ?thesis
      by (subst decimal.simps) (simp add: decimal_value_def of_char_digit_char)
  next
    case False
    then have "decimal_value (decimal (n div 10)) = n div 10" using "1.IH" by simp
    moreover have "n mod 10 < 10" by simp
    ultimately show ?thesis using False
      by (subst decimal.simps) (simp add: decimal_value_def of_char_digit_char)
  qed
qed

lemma decimal_inj: "decimal m = decimal n \<Longrightarrow> m = n"
  by (metis decimal_value_decimal)










section \<open>Properties of the helpers\<close>

lemma requireRole_no_user: "user ctx = None \<Longrightarrow> requireRole ctx roles = Some Not_authenticated"
  by (simp add: requireRole_def requireAuth_def)

lemma requireRole_user:
  "user ctx = Some u \<Longrightarrow>
   requireRole ctx roles = (if role u \<in> set roles then None else Some Not_authorized)"
  by (simp add: requireRole_def requireAuth_def)

lemma length_sortEmployees: "length (sortEmployees list srt) = length list"
  by (cases srt) (simp_all add: sortEmployees_def length_sort_cmp)






lemma id_emp_spread: "id_emp (spread e input) = id_emp e"
  by (simp add: spread_def)

section \<open>The invariant of the ids\<close>

lemma ids_numbered_init: "ids_numbered employees_init"
  unfolding ids_numbered_def by code_simp

lemma ids_numbered_addEmployee:
  assumes "ids_numbered employees"
  shows "ids_numbered (snd (addEmployee employees now input ctx))"
proof (cases "requireRole ctx [''ADMIN'']")
  case None
  with assms show ?thesis
    by (simp add: addEmployee_def Let_def ids_numbered_def)
next
  case (Some e)
  with assms show ?thesis by (simp add: addEmployee_def)
qed

lemma map_id_emp_updateEmployee:
  "map id_emp (snd (updateEmployee employees i input ctx)) = map id_emp employees"
proof (cases "requireRole ctx [''ADMIN'']")
  case (Some e)
  then show ?thesis by (simp add: updateEmployee_def)
next
  case None
  show ?thesis
  proof (cases "findIndex (\<lambda>e. id_emp e = i) employees")
    case None
    with \<open>requireRole ctx [''ADMIN''] = None\<close> show ?thesis
      by (simp add: updateEmployee_def)
  next
    case (Some idx)
    then have "idx < length employees" using findIndex_Some by blast
    then have "map id_emp (employees[idx := spread (employees ! idx) input]) = map id_emp employees"
      by (simp add: map_update id_emp_spread list_update_same_conv)
    with Some \<open>requireRole ctx [''ADMIN''] = None\<close> show ?thesis
      by (simp add: updateEmployee_def Let_def)
  qed
qed

lemma ids_numbered_updateEmployee:
  assumes "ids_numbered employees"
  shows "ids_numbered (snd (updateEmployee employees i input ctx))"
proof -
  have "length (snd (updateEmployee employees i input ctx)) = length employees"
    using map_id_emp_updateEmployee [of employees i input ctx] by (metis length_map)
  with assms map_id_emp_updateEmployee [of employees i input ctx] show ?thesis
    by (simp add: ids_numbered_def)
qed

lemma ids_numbered_foldl:
  "ids_numbered employees \<Longrightarrow> ids_numbered (foldl apply_mutation employees ms)"
proof (induction ms arbitrary: employees)
  case Nil
  then show ?case by simp
next
  case (Cons m ms)
  have "ids_numbered (apply_mutation employees m)"
    using Cons.prems
    by (cases m) (simp_all add: ids_numbered_addEmployee ids_numbered_updateEmployee)
  then show ?case using Cons.IH by simp
qed

lemma ids_numbered_run: "ids_numbered (run_mutations ms)"
  unfolding run_mutations_def by (rule ids_numbered_foldl) (rule ids_numbered_init)

lemma ids_numbered_distinct:
  assumes "ids_numbered employees"
  shows "distinct (map id_emp employees)"
proof -
  have "inj_on (\<lambda>k. ''e'' @ decimal (k + 1)) (set [0..<length employees])"
    by (auto simp: inj_on_def dest: decimal_inj)
  then have "distinct (map (\<lambda>k. ''e'' @ decimal (k + 1)) [0..<length employees])"
    by (simp add: distinct_map)
  with assms show ?thesis by (simp add: ids_numbered_def)
qed

lemma ids_numbered_fresh:
  assumes "ids_numbered employees"
  shows "''e'' @ decimal (length employees + 1) \<notin> id_emp ` set employees"
proof -
  have "set (map id_emp employees)
      = set (map (\<lambda>k. ''e'' @ decimal (k + 1)) [0..<length employees])"
    using assms unfolding ids_numbered_def by (rule arg_cong)
  then have "id_emp ` set employees
      = set (map (\<lambda>k. ''e'' @ decimal (k + 1)) [0..<length employees])"
    by (simp only: set_map)
  moreover have "''e'' @ decimal (length employees + 1)
      \<notin> set (map (\<lambda>k. ''e'' @ decimal (k + 1)) [0..<length employees])"
    by (auto dest: decimal_inj)
  ultimately show ?thesis by simp
qed

section \<open>The employees query on the initial data\<close>

text \<open>
  C1 (as the specification states it, refuted). With the filter \<open>{className: "Class A"}\<close>
  and the sort \<open>{field: ATTENDANCE, order: DESC}\<close>, page 1 of size 10 over the
  initial array is not Clara followed by Alice.
\<close>

theorem C1_items_not_clara_alice:
  "items (Query_employees employees_init
       (Some \<lparr>nameContains = None, className_flt = Some ''Class A'', minAttendance = None\<rparr>)
       (Some 1) (Some 10) (Some \<lparr>field = ATTENDANCE, order = DESC\<rparr>))
     \<noteq> [clara, alice]"
  by code_simp

text \<open>
  C1 (amended). The same query returns Alice (attendance 96) followed by Clara
  (attendance 92), the descending order of attendance, with \<open>totalCount\<close> 2.
\<close>

theorem C1_query_class_A_attendance_desc:
  "Query_employees employees_init
       (Some \<lparr>nameContains = None, className_flt = Some ''Class A'', minAttendance = None\<rparr>)
       (Some 1) (Some 10) (Some \<lparr>field = ATTENDANCE, order = DESC\<rparr>)
     = \<lparr>items = [alice, clara], totalCount = 2, page = 1, pageSize = 10\<rparr>"
  by code_simp

section \<open>Filtering\<close>




section \<open>Sorting\<close>



section \<open>Pagination\<close>

text \<open>
  C4. For a page number of at least 1 and a page size of at least 0, the items are the
  filtered and sorted list without its first \<open>(page - 1) * pageSize\<close> records, cut
  after \<open>pageSize\<close> records: never more than \<open>pageSize\<close> of them, none when the
  offset reaches the end of the list, and \<open>totalCount\<close> is the length of the
  filtered list whatever the page.
\<close>

theorem Query_employees_page:
  assumes "1 \<le> pg" and "0 \<le> sz"
  shows "items (Query_employees employees flt (Some pg) (Some sz) srt)
           = take (nat sz) (drop (nat ((pg - 1) * sz))
               (sortEmployees (filterEmployees employees flt) srt)) \<and>
         int (length (items (Query_employees employees flt (Some pg) (Some sz) srt))) \<le> sz \<and>
         (int (length (filterEmployees employees flt)) \<le> (pg - 1) * sz \<longrightarrow>
            items (Query_employees employees flt (Some pg) (Some sz) srt) = []) \<and>
         totalCount (Query_employees employees flt (Some pg) (Some sz) srt)
           = int (length (filterEmployees employees flt))"
proof -
  let ?l = "sortEmployees (filterEmployees employees flt) srt"
  have start: "0 \<le> (pg - 1) * sz" using assms by simp
  have "slice ?l ((pg - 1) * sz) ((pg - 1) * sz + sz)
      = take (nat sz) (drop (nat ((pg - 1) * sz)) ?l)"
    using slice_take_drop [of "(pg - 1) * sz" "(pg - 1) * sz + sz" ?l] start assms by simp
  then have items: "items (Query_employees employees flt (Some pg) (Some sz) srt)
      = take (nat sz) (drop (nat ((pg - 1) * sz)) ?l)"
    by (simp add: Query_employees_def Let_def)
  have total: "totalCount (Query_employees employees flt (Some pg) (Some sz) srt)
      = int (length (filterEmployees employees flt))"
    by (simp add: Query_employees_def Let_def length_sortEmployees)
  have len: "int (length (take (nat sz) (drop (nat ((pg - 1) * sz)) ?l))) \<le> sz"
    using assms by simp
  have empty: "take (nat sz) (drop (nat ((pg - 1) * sz)) ?l) = []"
    if "int (length (filterEmployees employees flt)) \<le> (pg - 1) * sz"
    using that start by (simp add: length_sortEmployees)
  show ?thesis using items total len empty by simp
qed

text \<open>Page 2 of size 2 of the three initial records by name: Clara alone, of 3.\<close>

theorem Query_employees_page_witness:
  "(1::int) \<le> 2 \<and> (0::int) \<le> 2 \<and>
   items (Query_employees employees_init None (Some 2) (Some 2)
       (Some \<lparr>field = NAME, order = ASC\<rparr>)) = [clara] \<and>
   int (length (items (Query_employees employees_init None (Some 2) (Some 2)
       (Some \<lparr>field = NAME, order = ASC\<rparr>)))) \<le> 2 \<and>
   totalCount (Query_employees employees_init None (Some 2) (Some 2)
       (Some \<lparr>field = NAME, order = ASC\<rparr>)) = 3"
proof -
  have p: "(1::int) \<le> 2" and z: "(0::int) \<le> 2" by simp_all
  have v: "items (Query_employees employees_init None (Some 2) (Some 2)
       (Some \<lparr>field = NAME, order = ASC\<rparr>)) = [clara]"
    by code_simp
  have n: "int (length (filterEmployees employees_init None)) = 3"
    by code_simp
  note t = Query_employees_page [OF p z, of employees_init None
      "Some \<lparr>field = NAME, order = ASC\<rparr>"]
  from t have a: "int (length (items (Query_employees employees_init None (Some 2) (Some 2)
       (Some \<lparr>field = NAME, order = ASC\<rparr>)))) \<le> 2"
    by (rule conjunct1 [OF conjunct2])
  from t have "totalCount (Query_employees employees_init None (Some 2) (Some 2)
       (Some \<lparr>field = NAME, order = ASC\<rparr>)) = int (length (filterEmployees employees_init None))"
    by (rule conjunct2 [OF conjunct2 [OF conjunct2]])
  then have b: "totalCount (Query_employees employees_init None (Some 2) (Some 2)
       (Some \<lparr>field = NAME, order = ASC\<rparr>)) = 3"
    by (simp only: n)
  from p z v a b show ?thesis by (intro conjI)
qed

section \<open>Authorization of the mutations\<close>

text \<open>
  C5. Whatever the array and the input, \<open>addEmployee\<close> and \<open>updateEmployee\<close> fail with
  \<open>Not authenticated\<close> when the context has no user and with \<open>Not authorized\<close> when
  the role of its user is not \<open>ADMIN\<close>; with the role \<open>ADMIN\<close> neither of them fails
  in one of these two ways.
\<close>

theorem mutations_require_admin:
  "(user ctx = None \<longrightarrow>
      fst (addEmployee employees now input ctx) = Inl Not_authenticated \<and>
      fst (updateEmployee employees i input ctx) = Inl Not_authenticated) \<and>
   (\<forall>u. user ctx = Some u \<longrightarrow> role u \<noteq> ''ADMIN'' \<longrightarrow>
      fst (addEmployee employees now input ctx) = Inl Not_authorized \<and>
      fst (updateEmployee employees i input ctx) = Inl Not_authorized) \<and>
   (\<forall>u. user ctx = Some u \<longrightarrow> role u = ''ADMIN'' \<longrightarrow>
      fst (addEmployee employees now input ctx) \<notin> {Inl Not_authenticated, Inl Not_authorized} \<and>
      fst (updateEmployee employees i input ctx) \<notin> {Inl Not_authenticated, Inl Not_authorized})"
proof (intro conjI allI impI)
  assume "user ctx = None"
  then have r: "requireRole ctx [''ADMIN''] = Some Not_authenticated"
    by (rule requireRole_no_user)
  show "fst (addEmployee employees now input ctx) = Inl Not_authenticated"
    by (simp add: addEmployee_def r)
  show "fst (updateEmployee employees i input ctx) = Inl Not_authenticated"
    by (simp add: updateEmployee_def r)
next
  fix u assume "user ctx = Some u" "role u \<noteq> ''ADMIN''"
  then have r: "requireRole ctx [''ADMIN''] = Some Not_authorized"
    by (simp add: requireRole_user)
  show "fst (addEmployee employees now input ctx) = Inl Not_authorized"
    by (simp add: addEmployee_def r)
  show "fst (updateEmployee employees i input ctx) = Inl Not_authorized"
    by (simp add: updateEmployee_def r)
next
  fix u assume "user ctx = Some u" "role u = ''ADMIN''"
  then have r: "requireRole ctx [''ADMIN''] = None"
    by (simp add: requireRole_user)
  show "fst (addEmployee employees now input ctx) \<notin> {Inl Not_authenticated, Inl Not_authorized}"
    by (simp add: addEmployee_def r Let_def)
  show "fst (updateEmployee employees i input ctx)
      \<notin> {Inl Not_authenticated, Inl Not_authorized}"
    by (simp add: updateEmployee_def r Let_def split: option.splits)
qed

theorem mutations_require_admin_witness:
  "user anonymous_context = None \<and>
   fst (addEmployee employees_init ''2024-06-01T09:30:00.000Z'' dan_input anonymous_context)
     = Inl Not_authenticated \<and>
   user john_context = Some \<lparr>id_usr = ''2'', username = ''john'', role = ''EMPLOYEE''\<rparr> \<and>
   fst (updateEmployee employees_init ''e1'' dan_input john_context) = Inl Not_authorized \<and>
   user admin_context = Some \<lparr>id_usr = ''1'', username = ''admin'', role = ''ADMIN''\<rparr> \<and>
   fst (addEmployee employees_init ''2024-06-01T09:30:00.000Z'' dan_input admin_context)
     \<notin> {Inl Not_authenticated, Inl Not_authorized}"
proof -
  have n: "user anonymous_context = None"
    by (simp add: anonymous_context_def)
  have j: "user john_context = Some \<lparr>id_usr = ''2'', username = ''john'', role = ''EMPLOYEE''\<rparr>"
    by (simp add: john_context_def)
  have jr: "role \<lparr>id_usr = ''2'', username = ''john'', role = ''EMPLOYEE''\<rparr> \<noteq> ''ADMIN''"
    by simp
  have a: "user admin_context = Some \<lparr>id_usr = ''1'', username = ''admin'', role = ''ADMIN''\<rparr>"
    by (simp add: admin_context_def)
  have ar: "role \<lparr>id_usr = ''1'', username = ''admin'', role = ''ADMIN''\<rparr> = ''ADMIN''"
    by simp
  have 1: "fst (addEmployee employees_init ''2024-06-01T09:30:00.000Z'' dan_input
      anonymous_context) = Inl Not_authenticated"
    using mutations_require_admin [of anonymous_context employees_init
        "''2024-06-01T09:30:00.000Z''" dan_input "''e1''"] n
    by blast
  have 2: "fst (updateEmployee employees_init ''e1'' dan_input john_context) = Inl Not_authorized"
    using mutations_require_admin [of john_context employees_init
        "''2024-06-01T09:30:00.000Z''" dan_input "''e1''"] j jr
    by blast
  have 3: "fst (addEmployee employees_init ''2024-06-01T09:30:00.000Z'' dan_input admin_context)
     \<notin> {Inl Not_authenticated, Inl Not_authorized}"
    using mutations_require_admin [of admin_context employees_init
        "''2024-06-01T09:30:00.000Z''" dan_input "''e1''"] a ar
    by blast
  from n 1 j 2 a 3 show ?thesis by (intro conjI)
qed

text \<open>
  C10. \<open>updateEmployee\<close> checks the caller before it looks for the record: without a
  user it fails with \<open>Not authenticated\<close> and with a user whose role is not \<open>ADMIN\<close>
  with \<open>Not authorized\<close>, whether or not the id exists; it fails with
  \<open>Employee not found\<close> only for a user whose role is \<open>ADMIN\<close>.
\<close>

theorem updateEmployee_auth_first:
  "(user ctx = None \<longrightarrow> fst (updateEmployee employees i input ctx) = Inl Not_authenticated) \<and>
   (\<forall>u. user ctx = Some u \<longrightarrow> role u \<noteq> ''ADMIN'' \<longrightarrow>
      fst (updateEmployee employees i input ctx) = Inl Not_authorized) \<and>
   (fst (updateEmployee employees i input ctx) = Inl Employee_not_found \<longrightarrow>
      (\<exists>u. user ctx = Some u \<and> role u = ''ADMIN''))"
proof (intro conjI allI impI)
  assume "user ctx = None"
  then show "fst (updateEmployee employees i input ctx) = Inl Not_authenticated"
    by (simp add: updateEmployee_def requireRole_no_user)
next
  fix u assume "user ctx = Some u" "role u \<noteq> ''ADMIN''"
  then show "fst (updateEmployee employees i input ctx) = Inl Not_authorized"
    by (simp add: updateEmployee_def requireRole_user)
next
  assume nf: "fst (updateEmployee employees i input ctx) = Inl Employee_not_found"
  show "\<exists>u. user ctx = Some u \<and> role u = ''ADMIN''"
  proof (cases "user ctx")
    case None
    with nf show ?thesis by (simp add: updateEmployee_def requireRole_no_user)
  next
    case (Some u)
    with nf show ?thesis
      by (cases "role u = ''ADMIN''") (simp_all add: updateEmployee_def requireRole_user)
  qed
qed

text \<open>No record has the id \<open>e9\<close>, and still the caller is judged first.\<close>

theorem updateEmployee_auth_first_witness:
  "''e9'' \<notin> id_emp ` set employees_init \<and>
   fst (updateEmployee employees_init ''e9'' dan_input anonymous_context)
     = Inl Not_authenticated \<and>
   fst (updateEmployee employees_init ''e9'' dan_input john_context) = Inl Not_authorized \<and>
   fst (updateEmployee employees_init ''e9'' dan_input admin_context) = Inl Employee_not_found \<and>
   (\<exists>u. user admin_context = Some u \<and> role u = ''ADMIN'')"
proof -
  have e: "''e9'' \<notin> id_emp ` set employees_init"
    by code_simp
  have n: "user anonymous_context = None"
    by (simp add: anonymous_context_def)
  have j: "user john_context = Some \<lparr>id_usr = ''2'', username = ''john'', role = ''EMPLOYEE''\<rparr>"
    by (simp add: john_context_def)
  have jr: "role \<lparr>id_usr = ''2'', username = ''john'', role = ''EMPLOYEE''\<rparr> \<noteq> ''ADMIN''"
    by simp
  have f: "fst (updateEmployee employees_init ''e9'' dan_input admin_context)
      = Inl Employee_not_found"
    by code_simp
  have 1: "fst (updateEmployee employees_init ''e9'' dan_input anonymous_context)
      = Inl Not_authenticated"
    using updateEmployee_auth_first [of anonymous_context employees_init "''e9''" dan_input] n
    by blast
  have 2: "fst (updateEmployee employees_init ''e9'' dan_input john_context) = Inl Not_authorized"
    using updateEmployee_auth_first [of john_context employees_init "''e9''" dan_input] j jr
    by blast
  have 3: "\<exists>u. user admin_context = Some u \<and> role u = ''ADMIN''"
    using updateEmployee_auth_first [of admin_context employees_init "''e9''" dan_input] f
    by blast
  from e 1 2 f 3 show ?thesis by (intro conjI)
qed

section \<open>Login\<close>

text \<open>
  C6. \<open>login\<close> fails with \<open>Invalid credentials\<close> iff no user has both the username
  and the password; otherwise it returns the token signed over \<open>{id, username, role}\<close>
  of a user with that username and password, and these three fields of that user,
  without the password. For \<open>admin\<close> with \<open>admin123\<close> that is the user with id 1 and
  role \<open>ADMIN\<close>; for \<open>admin\<close> with \<open>wrong\<close> it fails.
\<close>

theorem login_credentials:
  "(login sign uname pw = Inl Invalid_credentials
      \<longleftrightarrow> \<not> (\<exists>u \<in> set users. username u = uname \<and> password u = pw)) \<and>
   (\<forall>r. login sign uname pw = Inr r \<longrightarrow>
      (\<exists>u \<in> set users. username u = uname \<and> password u = pw \<and>
         user_out r = \<lparr>id_usr = id_usr u, username = username u, role = role u\<rparr> \<and>
         token r = sign \<lparr>id_usr = id_usr u, username = username u, role = role u\<rparr>)) \<and>
   (\<forall>e. login sign uname pw = Inl e \<longrightarrow> e = Invalid_credentials) \<and>
   login sign ''admin'' ''admin123''
     = Inr \<lparr>token = sign \<lparr>id_usr = ''1'', username = ''admin'', role = ''ADMIN''\<rparr>,
            user_out = \<lparr>id_usr = ''1'', username = ''admin'', role = ''ADMIN''\<rparr>\<rparr> \<and>
   login sign ''admin'' ''wrong'' = Inl Invalid_credentials"
proof (intro conjI allI impI)
  show "login sign uname pw = Inl Invalid_credentials
      \<longleftrightarrow> \<not> (\<exists>u \<in> set users. username u = uname \<and> password u = pw)"
    by (auto simp: login_def find_None_iff split: option.splits dest: find_SomeD)
next
  fix r assume "login sign uname pw = Inr r"
  then obtain u where u: "find (\<lambda>u. username u = uname \<and> password u = pw) users = Some u"
    and r: "r = \<lparr>token = sign \<lparr>id_usr = id_usr u, username = username u, role = role u\<rparr>,
             user_out = \<lparr>id_usr = id_usr u, username = username u, role = role u\<rparr>\<rparr>"
    by (auto simp: login_def split: option.splits)
  from find_SomeD [OF u] have "u \<in> set users" "username u = uname \<and> password u = pw"
    by simp_all
  with r show "\<exists>u \<in> set users. username u = uname \<and> password u = pw \<and>
         user_out r = \<lparr>id_usr = id_usr u, username = username u, role = role u\<rparr> \<and>
         token r = sign \<lparr>id_usr = id_usr u, username = username u, role = role u\<rparr>"
    by auto
next
  fix e assume "login sign uname pw = Inl e"
  then show "e = Invalid_credentials"
    by (auto simp: login_def split: option.splits)
next
  show "login sign ''admin'' ''admin123''
     = Inr \<lparr>token = sign \<lparr>id_usr = ''1'', username = ''admin'', role = ''ADMIN''\<rparr>,
            user_out = \<lparr>id_usr = ''1'', username = ''admin'', role = ''ADMIN''\<rparr>\<rparr>"
    by (simp add: login_def users_def)
  show "login sign ''admin'' ''wrong'' = Inl Invalid_credentials"
    by (simp add: login_def users_def)
qed

text \<open>\<open>john\<close> with \<open>john123\<close>, the token being the username behind \<open>jwt:\<close>.\<close>

theorem login_credentials_witness:
  "login (\<lambda>p. ''jwt:'' @ username p) ''john'' ''john123''
     = Inr \<lparr>token = ''jwt:john'',
            user_out = \<lparr>id_usr = ''2'', username = ''john'', role = ''EMPLOYEE''\<rparr>\<rparr> \<and>
   (\<exists>u \<in> set users. username u = ''john'' \<and> password u = ''john123'' \<and>
      user_out \<lparr>token = ''jwt:john'',
            user_out = \<lparr>id_usr = ''2'', username = ''john'', role = ''EMPLOYEE''\<rparr>\<rparr>
        = \<lparr>id_usr = id_usr u, username = username u, role = role u\<rparr> \<and>
      token \<lparr>token = ''jwt:john'',
            user_out = \<lparr>id_usr = ''2'', username = ''john'', role = ''EMPLOYEE''\<rparr>\<rparr>
        = (\<lambda>p. ''jwt:'' @ username p)
            \<lparr>id_usr = id_usr u, username = username u, role = role u\<rparr>)"
proof -
  have v: "login (\<lambda>p. ''jwt:'' @ username p) ''john'' ''john123''
     = Inr \<lparr>token = ''jwt:john'',
            user_out = \<lparr>id_usr = ''2'', username = ''john'', role = ''EMPLOYEE''\<rparr>\<rparr>"
    by (simp add: login_def users_def)
  from login_credentials [of "\<lambda>p. ''jwt:'' @ username p" "''john''" "''john123''"]
  have "\<forall>r. login (\<lambda>p. ''jwt:'' @ username p) ''john'' ''john123'' = Inr r \<longrightarrow>
      (\<exists>u \<in> set users. username u = ''john'' \<and> password u = ''john123'' \<and>
         user_out r = \<lparr>id_usr = id_usr u, username = username u, role = role u\<rparr> \<and>
         token r = (\<lambda>p. ''jwt:'' @ username p)
            \<lparr>id_usr = id_usr u, username = username u, role = role u\<rparr>)"
    by (rule conjunct1 [OF conjunct2])
  from this [rule_format, OF v] v show ?thesis by (intro conjI)
qed

section \<open>Updating a record\<close>

text \<open>
  C7. For a caller with the role \<open>ADMIN\<close>, \<open>updateEmployee\<close> with an id that no record
  of the array has fails with \<open>Employee not found\<close>, and the array is the one it was
  before the call.
\<close>

theorem updateEmployee_not_found:
  assumes "user ctx = Some u" and "role u = ''ADMIN''" and "i \<notin> id_emp ` set employees"
  shows "updateEmployee employees i input ctx = (Inl Employee_not_found, employees)"
proof -
  have "requireRole ctx [''ADMIN''] = None"
    using assms(1,2) by (simp add: requireRole_user)
  moreover have "findIndex (\<lambda>e. id_emp e = i) employees = None"
    using assms(3) by (auto simp: findIndex_None)
  ultimately show ?thesis by (simp add: updateEmployee_def)
qed

theorem updateEmployee_not_found_witness:
  "user admin_context = Some \<lparr>id_usr = ''1'', username = ''admin'', role = ''ADMIN''\<rparr> \<and>
   role \<lparr>id_usr = ''1'', username = ''admin'', role = ''ADMIN''\<rparr> = ''ADMIN'' \<and>
   ''e9'' \<notin> id_emp ` set employees_init \<and>
   updateEmployee employees_init ''e9'' dan_input admin_context
     = (Inl Employee_not_found, employees_init)"
proof -
  have a: "user admin_context = Some \<lparr>id_usr = ''1'', username = ''admin'', role = ''ADMIN''\<rparr>"
    by (simp add: admin_context_def)
  have ar: "role \<lparr>id_usr = ''1'', username = ''admin'', role = ''ADMIN''\<rparr> = ''ADMIN''"
    by simp
  have e: "''e9'' \<notin> id_emp ` set employees_init"
    by code_simp
  from a ar e updateEmployee_not_found [OF a ar e, of dan_input] show ?thesis
    by (intro conjI)
qed

text \<open>
  C8. A successful \<open>updateEmployee\<close> changes the first record with the given id and no
  other record: the merged record takes from the input the name, the age, the class
  label, the subjects and the attendance, and \<open>flagged\<close> when the input has it
  (keeping the old \<open>flagged\<close> when the input omits it), keeps its id and its creation
  time, is stored at the place of the old record and is the record returned.
\<close>

theorem updateEmployee_merge:
  assumes "updateEmployee employees i input ctx = (Inr e', employees')"
  shows "\<exists>idx < length employees.
           id_emp (employees ! idx) = i \<and> (\<forall>j < idx. id_emp (employees ! j) \<noteq> i) \<and>
           length employees' = length employees \<and>
           (\<forall>j < length employees. j \<noteq> idx \<longrightarrow> employees' ! j = employees ! j) \<and>
           employees' ! idx = e' \<and>
           e' = \<lparr>name = name input, age = age input, className = className input,
                 subjects = subjects input, attendance = attendance input,
                 id_emp = id_emp (employees ! idx),
                 flagged = (case flagged_in input of
                              Omitted \<Rightarrow> flagged (employees ! idx)
                            | Null \<Rightarrow> None
                            | Given b \<Rightarrow> Some b),
                 createdAt = createdAt (employees ! idx)\<rparr>"
proof -
  from assms obtain idx where idx: "findIndex (\<lambda>e. id_emp e = i) employees = Some idx"
    and upd: "employees' = employees[idx := spread (employees ! idx) input]"
    and ret: "e' = employees' ! idx"
    by (auto simp: updateEmployee_def Let_def split: option.splits)
  from findIndex_Some [OF idx]
  have lt: "idx < length employees" and hit: "id_emp (employees ! idx) = i"
    and first: "\<forall>j < idx. id_emp (employees ! j) \<noteq> i"
    by auto
  from upd ret lt have e': "e' = spread (employees ! idx) input" by simp
  have "e' = \<lparr>name = name input, age = age input, className = className input,
                 subjects = subjects input, attendance = attendance input,
                 id_emp = id_emp (employees ! idx),
                 flagged = (case flagged_in input of
                              Omitted \<Rightarrow> flagged (employees ! idx)
                            | Null \<Rightarrow> None
                            | Given b \<Rightarrow> Some b),
                 createdAt = createdAt (employees ! idx)\<rparr>"
    unfolding e' spread_def by (cases "employees ! idx") simp
  with lt hit first upd ret show ?thesis by auto
qed

text \<open>Bob becomes Dan Wu and stays \<open>e2\<close>, flagged, created on the first of March.\<close>

theorem updateEmployee_merge_witness:
  "updateEmployee employees_init ''e2'' dan_input admin_context
     = (Inr \<lparr>name = ''Dan Wu'', age = 41, className = ''Class C'', subjects = [''Art''],
             attendance = 77, id_emp = ''e2'', flagged = Some True,
             createdAt = ''2024-03-01T00:00:00.000Z''\<rparr>,
        [alice,
         \<lparr>name = ''Dan Wu'', age = 41, className = ''Class C'', subjects = [''Art''],
          attendance = 77, id_emp = ''e2'', flagged = Some True,
          createdAt = ''2024-03-01T00:00:00.000Z''\<rparr>,
         clara]) \<and>
   (\<exists>idx < length employees_init.
      id_emp (employees_init ! idx) = ''e2'' \<and>
      length [alice,
         \<lparr>name = ''Dan Wu'', age = 41, className = ''Class C'', subjects = [''Art''],
          attendance = 77, id_emp = ''e2'', flagged = Some True,
          createdAt = ''2024-03-01T00:00:00.000Z''\<rparr>,
         clara] = length employees_init)"
proof -
  have v: "updateEmployee employees_init ''e2'' dan_input admin_context
     = (Inr \<lparr>name = ''Dan Wu'', age = 41, className = ''Class C'', subjects = [''Art''],
             attendance = 77, id_emp = ''e2'', flagged = Some True,
             createdAt = ''2024-03-01T00:00:00.000Z''\<rparr>,
        [alice,
         \<lparr>name = ''Dan Wu'', age = 41, className = ''Class C'', subjects = [''Art''],
          attendance = 77, id_emp = ''e2'', flagged = Some True,
          createdAt = ''2024-03-01T00:00:00.000Z''\<rparr>,
         clara])"
    by code_simp
  from updateEmployee_merge [OF v]
  have "\<exists>idx < length employees_init.
      id_emp (employees_init ! idx) = ''e2'' \<and>
      length [alice,
         \<lparr>name = ''Dan Wu'', age = 41, className = ''Class C'', subjects = [''Art''],
          attendance = 77, id_emp = ''e2'', flagged = Some True,
          createdAt = ''2024-03-01T00:00:00.000Z''\<rparr>,
         clara] = length employees_init"
    by blast
  with v show ?thesis by (intro conjI)
qed

section \<open>Uniqueness of the ids\<close>

text \<open>
  C9. After any sequence of \<open>addEmployee\<close> and \<open>updateEmployee\<close> calls on the initial
  array, the ids of the records are pairwise distinct, and an \<open>addEmployee\<close> that
  succeeds gives its record an id that no record of the array has, so that the ids
  are distinct afterwards too.
\<close>

theorem ids_unique:
  "distinct (map id_emp (run_mutations ms)) \<and>
   (\<forall>now input ctx e employees'.
      addEmployee (run_mutations ms) now input ctx = (Inr e, employees') \<longrightarrow>
        id_emp e \<notin> id_emp ` set (run_mutations ms) \<and> distinct (map id_emp employees'))"
proof (intro conjI allI impI)
  show "distinct (map id_emp (run_mutations ms))"
    by (rule ids_numbered_distinct) (rule ids_numbered_run)
next
  fix now input ctx e employees'
  assume add: "addEmployee (run_mutations ms) now input ctx = (Inr e, employees')"
  then have "id_emp e = ''e'' @ decimal (length (run_mutations ms) + 1)"
    by (auto simp: addEmployee_def Let_def split: option.splits)
  then show "id_emp e \<notin> id_emp ` set (run_mutations ms)"
    using ids_numbered_fresh [OF ids_numbered_run, of ms] by simp
  have "ids_numbered (snd (addEmployee (run_mutations ms) now input ctx))"
    by (rule ids_numbered_addEmployee) (rule ids_numbered_run)
  then show "distinct (map id_emp employees')"
    using add by (simp add: ids_numbered_distinct)
qed

text \<open>
  An addition by \<open>admin\<close>, an update of \<open>e2\<close> and a refused addition by \<open>john\<close> leave
  the ids \<open>e1\<close> to \<open>e4\<close>; the next addition by \<open>admin\<close> takes \<open>e5\<close>.
\<close>

theorem ids_unique_witness:
  "map id_emp (run_mutations
      [AddEmployee ''2024-06-01T09:30:00.000Z'' dan_input admin_context,
       UpdateEmployee ''e2'' dan_input admin_context,
       AddEmployee ''2024-06-02T09:30:00.000Z'' dan_input john_context])
     = [''e1'', ''e2'', ''e3'', ''e4''] \<and>
   distinct (map id_emp (run_mutations
      [AddEmployee ''2024-06-01T09:30:00.000Z'' dan_input admin_context,
       UpdateEmployee ''e2'' dan_input admin_context,
       AddEmployee ''2024-06-02T09:30:00.000Z'' dan_input john_context])) \<and>
   addEmployee (run_mutations
      [AddEmployee ''2024-06-01T09:30:00.000Z'' dan_input admin_context,
       UpdateEmployee ''e2'' dan_input admin_context,
       AddEmployee ''2024-06-02T09:30:00.000Z'' dan_input john_context])
      ''2024-06-03T09:30:00.000Z'' dan_input admin_context
     = (Inr \<lparr>name = ''Dan Wu'', age = 41, className = ''Class C'', subjects = [''Art''],
             attendance = 77, id_emp = ''e5'', flagged = Some False,
             createdAt = ''2024-06-03T09:30:00.000Z''\<rparr>,
        run_mutations
          [AddEmployee ''2024-06-01T09:30:00.000Z'' dan_input admin_context,
           UpdateEmployee ''e2'' dan_input admin_context,
           AddEmployee ''2024-06-02T09:30:00.000Z'' dan_input john_context]
        @ [\<lparr>name = ''Dan Wu'', age = 41, className = ''Class C'', subjects = [''Art''],
            attendance = 77, id_emp = ''e5'', flagged = Some False,
            createdAt = ''2024-06-03T09:30:00.000Z''\<rparr>]) \<and>
   id_emp \<lparr>name = ''Dan Wu'', age = 41, className = ''Class C'', subjects = [''Art''],
           attendance = 77, id_emp = ''e5'', flagged = Some False,
           createdAt = ''2024-06-03T09:30:00.000Z''\<rparr>
     \<notin> id_emp ` set (run_mutations
      [AddEmployee ''2024-06-01T09:30:00.000Z'' dan_input admin_context,
       UpdateEmployee ''e2'' dan_input admin_context,
       AddEmployee ''2024-06-02T09:30:00.000Z'' dan_input john_context])"
proof -
  let ?ms = "[AddEmployee ''2024-06-01T09:30:00.000Z'' dan_input admin_context,
       UpdateEmployee ''e2'' dan_input admin_context,
       AddEmployee ''2024-06-02T09:30:00.000Z'' dan_input john_context]"
  let ?e = "\<lparr>name = ''Dan Wu'', age = 41, className = ''Class C'', subjects = [''Art''],
             attendance = 77, id_emp = ''e5'', flagged = Some False,
             createdAt = ''2024-06-03T09:30:00.000Z''\<rparr>"
  have v: "map id_emp (run_mutations ?ms) = [''e1'', ''e2'', ''e3'', ''e4'']"
    by code_simp
  have a: "addEmployee (run_mutations ?ms) ''2024-06-03T09:30:00.000Z'' dan_input admin_context
     = (Inr ?e, run_mutations ?ms @ [?e])"
    by code_simp
  note t = ids_unique [of ?ms]
  from t have d: "distinct (map id_emp (run_mutations ?ms))"
    by (rule conjunct1)
  from t a have f: "id_emp ?e \<notin> id_emp ` set (run_mutations ?ms)"
    by blast
  from v d a f show ?thesis by (intro conjI)
qed

end
